theory Spec2Isabelle
  imports Complex_Main "HOL-Library.Sublist"
begin

section \<open>Python values and exceptions\<close>

text \<open>
  The classifier of \<^verbatim>\<open>mail_classifier.py\<close> and the request handler of
  \<^verbatim>\<open>interface.py\<close> are embedded as HOL functions. A raised exception is the left
  summand of the result; \<open>exc_msg\<close> is what \<^verbatim>\<open>str(e)\<close> gives and \<open>exc_filename\<close> is
  the \<^verbatim>\<open>filename\<close> attribute (\<^verbatim>\<open>None\<close> for an exception that has none).
  Text is a list of 8-bit characters, read as the code points below 256; Python floats
  are modelled as real numbers.
\<close>

datatype exc_class =
  FileNotFoundError | PermissionError | UnpicklingError | LookupError
  | ValueError | IndexError | AttributeError

datatype exn = Exn (exc_cls: exc_class) (exc_filename: "string option") (exc_msg: string)

datatype pyval =
  PyStr string | PyNone | PyBool bool | PyInt int | PyBytes "nat list" | PyList "pyval list"

fun isinstance_str :: "pyval \<Rightarrow> bool" where
  "isinstance_str (PyStr s) = True"
| "isinstance_str v = False"

definition bind_exn :: "exn + 'a \<Rightarrow> ('a \<Rightarrow> exn + 'b) \<Rightarrow> exn + 'b" where
  "bind_exn m f = (case m of Inl e \<Rightarrow> Inl e | Inr x \<Rightarrow> f x)"

text \<open>A list comprehension whose body may raise: the first exception ends it.\<close>

fun map_exn :: "('a \<Rightarrow> exn + 'b) \<Rightarrow> 'a list \<Rightarrow> exn + 'b list" where
  "map_exn f [] = Inr []"
| "map_exn f (x # xs) =
     (case f x of Inl e \<Rightarrow> Inl e
      | Inr y \<Rightarrow> (case map_exn f xs of Inl e \<Rightarrow> Inl e | Inr ys \<Rightarrow> Inr (y # ys)))"

text \<open>\<^verbatim>\<open>xs[i]\<close> for an index that is never negative.\<close>

definition py_index :: "'a list \<Rightarrow> nat \<Rightarrow> exn + 'a" where
  "py_index xs i =
     (if i < length xs then Inr (xs ! i)
      else Inl (Exn IndexError None ''index out of range''))"

text \<open>Reading an attribute of \<^verbatim>\<open>self\<close> that was never assigned.\<close>

definition getattr :: "'a option \<Rightarrow> exn + 'a" where
  "getattr a = (case a of None \<Rightarrow> Inl (Exn AttributeError None ''object has no attribute'')
                | Some v \<Rightarrow> Inr v)"

section \<open>The objects the classifier holds\<close>

text \<open>
  The NLTK functions and the unpickled scikit-learn objects are not code of the
  repository: they are parameters of the embedding. An estimator is the record of the
  methods the classifier calls on it; \<open>'x\<close> is the type of feature matrices.
\<close>

record nltk =
  word_tokenize :: "string \<Rightarrow> exn + string list"
  stopwords_words_english :: "exn + string list"
  wordnet_lemmatize :: "string \<Rightarrow> exn + string"

record 'x estimator =
  transform :: "string list list \<Rightarrow> exn + 'x"
  predict :: "'x \<Rightarrow> exn + int list"
  predict_proba :: "'x \<Rightarrow> exn + real list list"

record 'x email_classifier =
  model_dir :: string
  lemmatizer :: "string \<Rightarrow> exn + string"
  stop_words :: "string set"
  spam_vec :: "'x estimator option"
  spam_clf :: "'x estimator option"
  ml_vec :: "'x estimator option"
  ml_clf :: "'x estimator option"

definition MULTILABEL_CLASSES :: "string list" where
  "MULTILABEL_CLASSES =
     [''Business'', ''Reminders'', ''Events & Invitations'', ''Finance & Bills'',
      ''Travel & Bookings'', ''Customer Support'', ''Newsletters'', ''Personal'',
      ''Job Application'', ''Promotions'']"

section \<open>Preprocessing\<close>

text \<open>\<^verbatim>\<open>str.lower\<close> on the code points below 256.\<close>

definition lower_char :: "char \<Rightarrow> char" where
  "lower_char c =
     (let n = (of_char c :: nat)
      in if (65 \<le> n \<and> n \<le> 90) \<or> (192 \<le> n \<and> n \<le> 222 \<and> n \<noteq> 215)
         then char_of (n + 32) else c)"

definition str_lower :: "string \<Rightarrow> string" where
  "str_lower s = map lower_char s"

text \<open>The class \<^verbatim>\<open>\s\<close> of a text pattern, on the code points below 256.\<close>

definition is_space :: "char \<Rightarrow> bool" where
  "is_space c =
     (let n = (of_char c :: nat)
      in (9 \<le> n \<and> n \<le> 13) \<or> (28 \<le> n \<and> n \<le> 32) \<or> n = 133 \<or> n = 160)"

definition is_lower_alnum :: "char \<Rightarrow> bool" where
  "is_lower_alnum c =
     (let n = (of_char c :: nat) in (97 \<le> n \<and> n \<le> 122) \<or> (48 \<le> n \<and> n \<le> 57))"

text \<open>\<^verbatim>\<open>re.sub(r"[^a-z0-9\s]", " ", text)\<close>\<close>

definition re_sub_non_alnum :: "string \<Rightarrow> string" where
  "re_sub_non_alnum text =
     map (\<lambda>c. if is_lower_alnum c \<or> is_space c then c else CHR '' '') text"

definition preprocess_email :: "nltk \<Rightarrow> 'x email_classifier \<Rightarrow> pyval \<Rightarrow> exn + string list" where
  "preprocess_email nl self text =
     (case text of
        PyStr s \<Rightarrow>
          (let text1 = str_lower s;
               text2 = re_sub_non_alnum text1
           in bind_exn (word_tokenize nl text2) (\<lambda>tokens.
                map_exn (lemmatizer self)
                  [t \<leftarrow> tokens. t \<notin> stop_words self \<and> length t > 2]))
      | _ \<Rightarrow> Inr [])"

section \<open>Thresholding and fallback\<close>

text \<open>
  The array operations of \<^verbatim>\<open>classify\<close>, on a matrix kept as the list of its rows.
  \<open>argmax\<close> is \<^verbatim>\<open>np.argmax\<close> on one row: the first index that holds the maximum, and
  a \<^verbatim>\<open>ValueError\<close> on an empty row.
\<close>

definition THRESHOLD :: real where
  "THRESHOLD = 0.30"

definition threshold_astype_int :: "real list list \<Rightarrow> int list list" where
  "threshold_astype_int y_pred_proba =
     map (map (\<lambda>p. if p \<ge> THRESHOLD then (1::int) else 0)) y_pred_proba"

definition sum_axis1 :: "int list list \<Rightarrow> int list" where
  "sum_axis1 y = map sum_list y"

definition where_eq_0 :: "int list \<Rightarrow> nat list" where
  "where_eq_0 row_sums = [r \<leftarrow> [0..<length row_sums]. row_sums ! r = 0]"

definition argmax :: "real list \<Rightarrow> exn + nat" where
  "argmax row =
     (if row = [] then Inl (Exn ValueError None ''attempt to get argmax of an empty sequence'')
      else Inr (length (takeWhile (\<lambda>v. v < Max (set row)) row)))"

definition argmax_axis1 :: "real list list \<Rightarrow> exn + nat list" where
  "argmax_axis1 rows = map_exn argmax rows"

text \<open>
  The loop \<^verbatim>\<open>for r, c in zip(no_label_rows, top_indices): y_pred_bin_thresh[r, c] = 1\<close>.
  Every \<open>r\<close> is a row index of the matrix and every \<open>c\<close> a column index of that row, so
  the assignment is always in range.
\<close>

definition set_ones :: "(nat \<times> nat) list \<Rightarrow> int list list \<Rightarrow> int list list" where
  "set_ones rcs y = fold (\<lambda>(r, c) y. y[r := (y ! r)[c := 1]]) rcs y"

text \<open>Lines 145 to 156 of \<^verbatim>\<open>classify\<close>: the decision matrix after the fallback.\<close>

definition y_pred_bin_thresh :: "real list list \<Rightarrow> exn + int list list" where
  "y_pred_bin_thresh y_pred_proba =
     (let y = threshold_astype_int y_pred_proba;
          row_sums = sum_axis1 y;
          no_label_rows = where_eq_0 row_sums
      in if length no_label_rows > 0
         then bind_exn (argmax_axis1 (map (\<lambda>r. y_pred_proba ! r) no_label_rows))
                (\<lambda>top_indices. Inr (set_ones (zip no_label_rows top_indices) y))
         else Inr y)"

text \<open>Lines 159 to 161: the names of the columns of row 0 that hold 1.\<close>

definition predicted_labels :: "int list list \<Rightarrow> exn + string list" where
  "predicted_labels y =
     bind_exn (py_index y 0) (\<lambda>row0.
       map_exn (\<lambda>(i, val). py_index MULTILABEL_CLASSES i)
         [(i, val) \<leftarrow> enumerate 0 row0. val = 1])"

section \<open>The pipeline\<close>

text \<open>
  \<^verbatim>\<open>classify\<close> returns its result together with the calls it made on the four
  estimators, in order; a call that raises is in the list too.
\<close>

datatype stage_call = SpamVecTransform | SpamClfPredict | MlVecTransform | MlClfPredictProba

type_synonym 'a traced = "stage_call list \<times> (exn + 'a)"

definition no_call :: "exn + 'a \<Rightarrow> 'a traced" where
  "no_call r = ([], r)"

definition call :: "stage_call \<Rightarrow> exn + 'a \<Rightarrow> 'a traced" where
  "call c r = ([c], r)"

definition and_then :: "'a traced \<Rightarrow> ('a \<Rightarrow> 'b traced) \<Rightarrow> 'b traced" where
  "and_then m f =
     (case m of
        (cs, Inl e) \<Rightarrow> (cs, Inl e)
      | (cs, Inr x) \<Rightarrow> (case f x of (cs', r) \<Rightarrow> (cs @ cs', r)))"

record classification =
  primary_classification :: string
  detailed_labels :: "string list"

definition classify_traced ::
  "nltk \<Rightarrow> 'x email_classifier \<Rightarrow> pyval \<Rightarrow> classification traced" where
  "classify_traced nl self email_text =
     and_then (no_call (preprocess_email nl self email_text)) (\<lambda>email_tokens.
     and_then (no_call (getattr (spam_vec self))) (\<lambda>sv.
     and_then (call SpamVecTransform (transform sv [email_tokens])) (\<lambda>X_spam.
     and_then (no_call (getattr (spam_clf self))) (\<lambda>sc.
     and_then (call SpamClfPredict (predict sc X_spam)) (\<lambda>preds.
     and_then (no_call (py_index preds 0)) (\<lambda>spam_prediction.
       if spam_prediction = 1
       then no_call (Inr \<lparr>primary_classification = ''Spam'', detailed_labels = []\<rparr>)
       else
         and_then (no_call (getattr (ml_vec self))) (\<lambda>mv.
         and_then (call MlVecTransform (transform mv [email_tokens])) (\<lambda>X_multilabel.
         and_then (no_call (getattr (ml_clf self))) (\<lambda>mc.
         and_then (call MlClfPredictProba (predict_proba mc X_multilabel)) (\<lambda>y_pred_proba.
         and_then (no_call (y_pred_bin_thresh y_pred_proba)) (\<lambda>y.
         and_then (no_call (predicted_labels y)) (\<lambda>labels.
           no_call (Inr \<lparr>primary_classification = ''No-Spam'',
                         detailed_labels = labels\<rparr>)))))))))))))"

definition classify :: "nltk \<Rightarrow> 'x email_classifier \<Rightarrow> pyval \<Rightarrow> exn + classification" where
  "classify nl self email_text = snd (classify_traced nl self email_text)"

section \<open>Loading the assets\<close>

text \<open>
  What the directory holds under a path: nothing, a file the process may not read, a file
  that is not a pickle of an object, or a pickled object. \<^verbatim>\<open>open\<close> raises for the
  first two and names the path; \<^verbatim>\<open>pickle.load\<close> raises for the third.
\<close>

datatype 'o pkl_file = Missing | Denied | NotAPickle | is_Pickled: Pickled (the_object: 'o)

definition os_path_join :: "string \<Rightarrow> string \<Rightarrow> string" where
  "os_path_join a b =
     (if b \<noteq> [] \<and> hd b = CHR ''/'' then b
      else if a = [] \<or> last a = CHR ''/'' then a @ b
      else a @ ''/'' @ b)"

definition open_rb :: "(string \<Rightarrow> 'o pkl_file) \<Rightarrow> string \<Rightarrow> exn + 'o pkl_file" where
  "open_rb fs path =
     (case fs path of
        Missing \<Rightarrow>
          Inl (Exn FileNotFoundError (Some path)
                 (''[Errno 2] No such file or directory: '' @ [CHR 0x27] @ path @ [CHR 0x27]))
      | Denied \<Rightarrow>
          Inl (Exn PermissionError (Some path)
                 (''[Errno 13] Permission denied: '' @ [CHR 0x27] @ path @ [CHR 0x27]))
      | f \<Rightarrow> Inr f)"

definition pickle_load :: "'o pkl_file \<Rightarrow> exn + 'o" where
  "pickle_load f =
     (case f of
        Pickled obj \<Rightarrow> Inr obj
      | _ \<Rightarrow> Inl (Exn UnpicklingError None ''invalid load key''))"

definition load_pkl :: "(string \<Rightarrow> 'o pkl_file) \<Rightarrow> string \<Rightarrow> string \<Rightarrow> exn + 'o" where
  "load_pkl fs dir name = bind_exn (open_rb fs (os_path_join dir name)) pickle_load"

definition format_filename :: "string option \<Rightarrow> string" where
  "format_filename fn = (case fn of None \<Rightarrow> ''None'' | Some p \<Rightarrow> p)"

definition load_pipeline_assets ::
  "(string \<Rightarrow> 'x estimator pkl_file) \<Rightarrow> 'x email_classifier \<Rightarrow> exn + 'x email_classifier" where
  "load_pipeline_assets fs self =
     (case
        bind_exn (load_pkl fs (model_dir self) ''spam_vectorizer.pkl'') (\<lambda>a.
        let self = self\<lparr>spam_vec := Some a\<rparr> in
        bind_exn (load_pkl fs (model_dir self) ''spam_model.pkl'') (\<lambda>b.
        let self = self\<lparr>spam_clf := Some b\<rparr> in
        bind_exn (load_pkl fs (model_dir self) ''multilabel_vectorizer.pkl'') (\<lambda>c.
        let self = self\<lparr>ml_vec := Some c\<rparr> in
        bind_exn (load_pkl fs (model_dir self) ''multilabel_model.pkl'') (\<lambda>d.
        let self = self\<lparr>ml_clf := Some d\<rparr> in
        Inr self))))
      of
        Inl e \<Rightarrow>
          (if exc_cls e = FileNotFoundError
           then Inl (Exn FileNotFoundError None
                  (''Required model asset not found: '' @ format_filename (exc_filename e) @ ''. ''
                   @ ''Ensure your model_assets directory exists and contains all four .pkl files.''))
           else Inl e)
      | Inr self' \<Rightarrow> Inr self')"

text \<open>
  \<^verbatim>\<open>__init__\<close>: a failed download is only reported; reading the stopword list may
  raise; the lemmatizer is built without reading anything.
\<close>

definition init ::
  "nltk \<Rightarrow> (string \<Rightarrow> 'x estimator pkl_file) \<Rightarrow> string \<Rightarrow> exn + 'x email_classifier" where
  "init nl fs dir =
     bind_exn (stopwords_words_english nl) (\<lambda>ws.
       load_pipeline_assets fs
         \<lparr>model_dir = dir, lemmatizer = wordnet_lemmatize nl, stop_words = set ws,
          spam_vec = None, spam_clf = None, ml_vec = None, ml_clf = None\<rparr>)"

text \<open>The four paths in the order in which they are opened.\<close>

definition asset_paths :: "string \<Rightarrow> string list" where
  "asset_paths dir =
     map (os_path_join dir)
       [''spam_vectorizer.pkl'', ''spam_model.pkl'', ''multilabel_vectorizer.pkl'',
        ''multilabel_model.pkl'']"

section \<open>The request handler\<close>

text \<open>
  The module of \<^verbatim>\<open>interface.py\<close> builds the classifier when it is imported: a
  \<^verbatim>\<open>FileNotFoundError\<close> leaves \<^verbatim>\<open>classifier = None\<close>, any other exception ends
  the import. The handler returns a result, an error object, or the pair of an error
  object and a status number.
\<close>

datatype 'x module_state = ImportFailed exn | Imported "'x email_classifier option"

definition import_interface ::
  "nltk \<Rightarrow> (string \<Rightarrow> 'x estimator pkl_file) \<Rightarrow> 'x module_state" where
  "import_interface nl fs =
     (case init nl fs ''model_assets'' of
        Inr c \<Rightarrow> Imported (Some c)
      | Inl e \<Rightarrow> (if exc_cls e = FileNotFoundError then Imported None else ImportFailed e))"

datatype response =
  is_Result: Result classification
  | ErrorObject string
  | ErrorObjectWithStatus string nat

definition classify_email ::
  "nltk \<Rightarrow> 'x email_classifier option \<Rightarrow> string \<Rightarrow> response" where
  "classify_email nl classifier email_text =
     (case classifier of
        None \<Rightarrow>
          ErrorObjectWithStatus ''Server failed to load machine learning assets on startup.'' 500
      | Some c \<Rightarrow>
          (case classify nl c (PyStr email_text) of
             Inr result \<Rightarrow> Result result
           | Inl e \<Rightarrow> ErrorObject (''An error occurred during classification: '' @ exc_msg e)))"

text \<open>
  A request to the route \<^verbatim>\<open>/classify\<close> of the module. After a failed import there
  is no application and nobody answers; otherwise the handler runs and reads the
  module's global \<^verbatim>\<open>classifier\<close>.
\<close>

definition post_classify :: "'x module_state \<Rightarrow> nltk \<Rightarrow> string \<Rightarrow> response option" where
  "post_classify app nl email_text =
     (case app of
        ImportFailed e \<Rightarrow> None
      | Imported classifier \<Rightarrow> Some (classify_email nl classifier email_text))"

section \<open>The pipeline over the state of the library objects\<close>

text \<open>
  The tokenizer, the lemmatizer and the estimators are objects of libraries, and a call
  on them may change them. To speak of two calls of \<^verbatim>\<open>classify\<close> one after the
  other, the two methods are embedded a second time with that state made explicit:
  \<open>'w\<close> is the state of everything behind the references the classifier holds, a
  library call takes the state and returns the state it leaves, and
  \<^verbatim>\<open>_preprocess_email\<close> and \<^verbatim>\<open>classify\<close> pass it from one call to the next in the
  order of the source. The code of the two methods assigns to no attribute and to no
  variable outside the call, so the state changes only where a library call changes it.
\<close>

type_synonym ('w, 'a) effect = "'w \<Rightarrow> 'w \<times> (exn + 'a)"

definition eff_pure :: "exn + 'a \<Rightarrow> ('w, 'a) effect" where
  "eff_pure r w = (w, r)"

definition eff_bind :: "('w, 'a) effect \<Rightarrow> ('a \<Rightarrow> ('w, 'b) effect) \<Rightarrow> ('w, 'b) effect" where
  "eff_bind m f w =
     (case m w of
        (w', Inl e) \<Rightarrow> (w', Inl e)
      | (w', Inr x) \<Rightarrow> f x w')"

text \<open>A list comprehension whose body is a library call.\<close>

fun eff_map :: "('a \<Rightarrow> ('w, 'b) effect) \<Rightarrow> 'a list \<Rightarrow> ('w, 'b list) effect" where
  "eff_map f [] = eff_pure (Inr [])"
| "eff_map f (x # xs) =
     eff_bind (f x) (\<lambda>y. eff_bind (eff_map f xs) (\<lambda>ys. eff_pure (Inr (y # ys))))"

record ('w, 'x) estimator_st =
  transform_st :: "string list list \<Rightarrow> ('w, 'x) effect"
  predict_st :: "'x \<Rightarrow> ('w, int list) effect"
  predict_proba_st :: "'x \<Rightarrow> ('w, real list list) effect"

record ('w, 'x) email_classifier_st =
  model_dir_st :: string
  lemmatizer_st :: "string \<Rightarrow> ('w, string) effect"
  stop_words_st :: "string set"
  spam_vec_st :: "('w, 'x) estimator_st option"
  spam_clf_st :: "('w, 'x) estimator_st option"
  ml_vec_st :: "('w, 'x) estimator_st option"
  ml_clf_st :: "('w, 'x) estimator_st option"

definition preprocess_email_st ::
  "(string \<Rightarrow> ('w, string list) effect) \<Rightarrow> ('w, 'x) email_classifier_st \<Rightarrow> pyval
     \<Rightarrow> ('w, string list) effect" where
  "preprocess_email_st word_tokenize_st self text =
     (case text of
        PyStr s \<Rightarrow>
          (let text1 = str_lower s;
               text2 = re_sub_non_alnum text1
           in eff_bind (word_tokenize_st text2) (\<lambda>tokens.
                eff_map (lemmatizer_st self)
                  [t \<leftarrow> tokens. t \<notin> stop_words_st self \<and> length t > 2]))
      | _ \<Rightarrow> eff_pure (Inr []))"

definition classify_st ::
  "(string \<Rightarrow> ('w, string list) effect) \<Rightarrow> ('w, 'x) email_classifier_st \<Rightarrow> pyval
     \<Rightarrow> ('w, classification) effect" where
  "classify_st word_tokenize_st self email_text =
     eff_bind (preprocess_email_st word_tokenize_st self email_text) (\<lambda>email_tokens.
     eff_bind (eff_pure (getattr (spam_vec_st self))) (\<lambda>sv.
     eff_bind (transform_st sv [email_tokens]) (\<lambda>X_spam.
     eff_bind (eff_pure (getattr (spam_clf_st self))) (\<lambda>sc.
     eff_bind (predict_st sc X_spam) (\<lambda>preds.
     eff_bind (eff_pure (py_index preds 0)) (\<lambda>spam_prediction.
       if spam_prediction = 1
       then eff_pure (Inr \<lparr>primary_classification = ''Spam'', detailed_labels = []\<rparr>)
       else
         eff_bind (eff_pure (getattr (ml_vec_st self))) (\<lambda>mv.
         eff_bind (transform_st mv [email_tokens]) (\<lambda>X_multilabel.
         eff_bind (eff_pure (getattr (ml_clf_st self))) (\<lambda>mc.
         eff_bind (predict_proba_st mc X_multilabel) (\<lambda>y_pred_proba.
         eff_bind (eff_pure (y_pred_bin_thresh y_pred_proba)) (\<lambda>y.
         eff_bind (eff_pure (predicted_labels y)) (\<lambda>labels.
           eff_pure (Inr \<lparr>primary_classification = ''No-Spam'',
                          detailed_labels = labels\<rparr>)))))))))))))"

text \<open>
  A library call that leaves the state as it found it, and a classifier whose tokenizer,
  lemmatizer and assets only make such calls: the model assets stay unchanged.
\<close>

definition leaves_unchanged :: "('w, 'a) effect \<Rightarrow> bool" where
  "leaves_unchanged m = (\<forall>w. fst (m w) = w)"

definition assets_unchanged ::
  "(string \<Rightarrow> ('w, string list) effect) \<Rightarrow> ('w, 'x) email_classifier_st \<Rightarrow> bool" where
  "assets_unchanged word_tokenize_st self =
     ((\<forall>s. leaves_unchanged (word_tokenize_st s))
      \<and> (\<forall>t. leaves_unchanged (lemmatizer_st self t))
      \<and> (\<forall>sv docs. spam_vec_st self = Some sv \<longrightarrow> leaves_unchanged (transform_st sv docs))
      \<and> (\<forall>sc X. spam_clf_st self = Some sc \<longrightarrow> leaves_unchanged (predict_st sc X))
      \<and> (\<forall>mv docs. ml_vec_st self = Some mv \<longrightarrow> leaves_unchanged (transform_st mv docs))
      \<and> (\<forall>mc X. ml_clf_st self = Some mc \<longrightarrow> leaves_unchanged (predict_proba_st mc X)))"

text \<open>
  An estimator and a classifier of the first embedding, seen as objects whose calls read
  and change no state.
\<close>

definition lift_estimator :: "'x estimator \<Rightarrow> ('w, 'x) estimator_st" where
  "lift_estimator e =
     \<lparr>transform_st = (\<lambda>docs. eff_pure (transform e docs)),
      predict_st = (\<lambda>X. eff_pure (predict e X)),
      predict_proba_st = (\<lambda>X. eff_pure (predict_proba e X))\<rparr>"

definition lift_classifier :: "'x email_classifier \<Rightarrow> ('w, 'x) email_classifier_st" where
  "lift_classifier c =
     \<lparr>model_dir_st = model_dir c,
      lemmatizer_st = (\<lambda>t. eff_pure (lemmatizer c t)),
      stop_words_st = stop_words c,
      spam_vec_st = map_option lift_estimator (spam_vec c),
      spam_clf_st = map_option lift_estimator (spam_clf c),
      ml_vec_st = map_option lift_estimator (ml_vec c),
      ml_clf_st = map_option lift_estimator (ml_clf c)\<rparr>"

section \<open>A small instance\<close>

text \<open>
  Concrete resources on which the theorems below are applied: a tokenizer that cuts the
  text at white space, a stopword list of three words, a lemmatizer that maps the plural
  \<open>dos\<close> to \<open>do\<close> (as the WordNet lemmatizer does, by removing the final \<open>s\<close> of a
  noun) and leaves every other token as it is, a vectorizer that counts the tokens of
  each document, a spam model that flags the documents without tokens, and a topic model
  with two probability rows.
\<close>

fun split_at_space :: "string \<Rightarrow> string \<Rightarrow> string list" where
  "split_at_space w [] = (if w = [] then [] else [w])"
| "split_at_space w (c # cs) =
     (if is_space c
      then (if w = [] then split_at_space [] cs else w # split_at_space [] cs)
      else split_at_space (w @ [c]) cs)"

definition toy_nltk :: nltk where
  "toy_nltk =
     \<lparr>word_tokenize = (\<lambda>s. Inr (split_at_space [] s)),
      stopwords_words_english = Inr [''the'', ''and'', ''do''],
      wordnet_lemmatize = (\<lambda>t. Inr (if t = ''dos'' then ''do'' else t))\<rparr>"

definition no_method :: "exn + 'a" where
  "no_method = Inl (Exn AttributeError None ''object has no attribute'')"

definition toy_vectorizer :: "nat list estimator" where
  "toy_vectorizer =
     \<lparr>transform = (\<lambda>docs. Inr (map length docs)),
      predict = (\<lambda>X. no_method),
      predict_proba = (\<lambda>X. no_method)\<rparr>"

definition toy_spam_model :: "nat list estimator" where
  "toy_spam_model =
     \<lparr>transform = (\<lambda>docs. no_method),
      predict = (\<lambda>X. Inr (map (\<lambda>n. if n = 0 then 1 else 0) X)),
      predict_proba = (\<lambda>X. no_method)\<rparr>"

definition toy_topic_model :: "nat list estimator" where
  "toy_topic_model =
     \<lparr>transform = (\<lambda>docs. no_method),
      predict = (\<lambda>X. no_method),
      predict_proba = (\<lambda>X. Inr (map (\<lambda>n.
         if n = 1 then [0.10, 0.25, 0.05, 0.25, 0.10, 0.05, 0.05, 0.05, 0.05, 0.05]
         else [0.05, 0.30, 0.10, 0.70, 0.29, 0.05, 0.05, 0.05, 0.05, 0.05]) X))\<rparr>"

definition toy_fs :: "string \<Rightarrow> nat list estimator pkl_file" where
  "toy_fs path =
     (if path = ''model_assets/spam_vectorizer.pkl'' then Pickled toy_vectorizer
      else if path = ''model_assets/spam_model.pkl'' then Pickled toy_spam_model
      else if path = ''model_assets/multilabel_vectorizer.pkl'' then Pickled toy_vectorizer
      else if path = ''model_assets/multilabel_model.pkl'' then Pickled toy_topic_model
      else Missing)"

text \<open>The same directory with the topic model removed.\<close>

definition toy_fs_missing :: "string \<Rightarrow> nat list estimator pkl_file" where
  "toy_fs_missing = toy_fs(''model_assets/multilabel_model.pkl'' := Missing)"

text \<open>
  The same directory with a spam vectorizer file that is not a pickle and without the
  spam model.
\<close>

definition toy_fs_garbled :: "string \<Rightarrow> nat list estimator pkl_file" where
  "toy_fs_garbled =
     toy_fs(''model_assets/spam_vectorizer.pkl'' := NotAPickle,
            ''model_assets/spam_model.pkl'' := Missing)"

text \<open>The same directory with a spam model that the process may not read.\<close>

definition toy_fs_denied :: "string \<Rightarrow> nat list estimator pkl_file" where
  "toy_fs_denied = toy_fs(''model_assets/spam_model.pkl'' := Denied)"

text \<open>The classifier object before and after the assets are loaded.\<close>

definition toy_unloaded :: "nat list email_classifier" where
  "toy_unloaded =
     \<lparr>model_dir = ''model_assets'',
      lemmatizer = wordnet_lemmatize toy_nltk,
      stop_words = {''the'', ''and'', ''do''},
      spam_vec = None, spam_clf = None, ml_vec = None, ml_clf = None\<rparr>"

definition toy_classifier :: "nat list email_classifier" where
  "toy_classifier =
     \<lparr>model_dir = ''model_assets'',
      lemmatizer = wordnet_lemmatize toy_nltk,
      stop_words = {''the'', ''and'', ''do''},
      spam_vec = Some toy_vectorizer,
      spam_clf = Some toy_spam_model,
      ml_vec = Some toy_vectorizer,
      ml_clf = Some toy_topic_model\<rparr>"

text \<open>
  The same instance over a state, a counter. In the first classifier the spam model reads
  the counter (it flags every document once the counter has passed 100) and no call
  changes it. In the second the spam model counts its calls and flags every document
  from its second call on.
\<close>

definition toy_word_tokenize_st :: "string \<Rightarrow> (nat, string list) effect" where
  "toy_word_tokenize_st s = eff_pure (word_tokenize toy_nltk s)"

definition toy_vectorizer_st :: "(nat, nat list) estimator_st" where
  "toy_vectorizer_st =
     \<lparr>transform_st = (\<lambda>docs. eff_pure (transform toy_vectorizer docs)),
      predict_st = (\<lambda>X. eff_pure no_method),
      predict_proba_st = (\<lambda>X. eff_pure no_method)\<rparr>"

definition toy_spam_model_st :: "(nat, nat list) estimator_st" where
  "toy_spam_model_st =
     \<lparr>transform_st = (\<lambda>docs. eff_pure no_method),
      predict_st = (\<lambda>X w. (w, if w > 100 then Inr (map (\<lambda>n. 1) X)
                               else predict toy_spam_model X)),
      predict_proba_st = (\<lambda>X. eff_pure no_method)\<rparr>"

definition toy_counting_spam_model_st :: "(nat, nat list) estimator_st" where
  "toy_counting_spam_model_st =
     \<lparr>transform_st = (\<lambda>docs. eff_pure no_method),
      predict_st = (\<lambda>X w. (Suc w, if w > 0 then Inr (map (\<lambda>n. 1) X)
                                   else predict toy_spam_model X)),
      predict_proba_st = (\<lambda>X. eff_pure no_method)\<rparr>"

definition toy_topic_model_st :: "(nat, nat list) estimator_st" where
  "toy_topic_model_st =
     \<lparr>transform_st = (\<lambda>docs. eff_pure no_method),
      predict_st = (\<lambda>X. eff_pure no_method),
      predict_proba_st = (\<lambda>X. eff_pure (predict_proba toy_topic_model X))\<rparr>"

definition toy_classifier_st :: "(nat, nat list) email_classifier_st" where
  "toy_classifier_st =
     \<lparr>model_dir_st = ''model_assets'',
      lemmatizer_st = (\<lambda>t. eff_pure (wordnet_lemmatize toy_nltk t)),
      stop_words_st = {''the'', ''and'', ''do''},
      spam_vec_st = Some toy_vectorizer_st,
      spam_clf_st = Some toy_spam_model_st,
      ml_vec_st = Some toy_vectorizer_st,
      ml_clf_st = Some toy_topic_model_st\<rparr>"

definition toy_counting_classifier_st :: "(nat, nat list) email_classifier_st" where
  "toy_counting_classifier_st = toy_classifier_st\<lparr>spam_clf_st := Some toy_counting_spam_model_st\<rparr>"

section \<open>Exceptions and list comprehensions\<close>

lemma bind_exn_Inr_iff: "bind_exn m f = Inr y \<longleftrightarrow> (\<exists>x. m = Inr x \<and> f x = Inr y)"
  by (cases m) (simp_all add: bind_exn_def)

lemma map_exn_Inr_iff: "map_exn f xs = Inr ys \<longleftrightarrow> list_all2 (\<lambda>x y. f x = Inr y) xs ys"
proof (induction xs arbitrary: ys)
  case Nil
  show ?case by auto
next
  case (Cons x xs)
  show ?case
  proof (cases "f x")
    case (Inl e)
    then show ?thesis by (auto simp: list_all2_Cons1)
  next
    case (Inr y)
    then show ?thesis
      using Cons.IH by (cases "map_exn f xs") (auto simp: list_all2_Cons1)
  qed
qed

lemma map_exn_map: "map_exn f (map g xs) = map_exn (\<lambda>x. f (g x)) xs"
  by (induction xs) (simp_all split: sum.splits)

lemma py_index_Inr_iff: "py_index xs j = Inr l \<longleftrightarrow> j < length xs \<and> l = xs ! j"
  by (auto simp: py_index_def)

lemma map_exn_py_index:
  "map_exn (py_index xs) js = Inr ls \<longleftrightarrow> (\<forall>j\<in>set js. j < length xs) \<and> ls = map (nth xs) js"
  by (auto simp: map_exn_Inr_iff list_all2_conv_all_nth py_index_Inr_iff
        all_set_conv_all_nth list_eq_iff_nth_eq)

section \<open>The decision matrix\<close>

lemma length_set_ones: "length (set_ones rcs y) = length y"
  by (induction rcs arbitrary: y) (auto simp: set_ones_def)

lemma set_ones_Cons:
  "set_ones ((r, c) # rcs) y = set_ones rcs (y[r := (y ! r)[c := 1]])"
  by (simp add: set_ones_def)

lemma length_set_ones_row:
  "r < length y \<Longrightarrow> length (set_ones rcs y ! r) = length (y ! r)"
proof (induction rcs arbitrary: y)
  case Nil
  show ?case by (simp add: set_ones_def)
next
  case (Cons rc rcs)
  obtain r' c' where rc: "rc = (r', c')" by (cases rc)
  show ?case
    using Cons.prems Cons.IH [of "y[r' := (y ! r')[c' := 1]]"]
    by (cases "r = r'") (simp_all add: rc set_ones_Cons)
qed

lemma set_ones_nth:
  "r < length y \<Longrightarrow> c < length (y ! r) \<Longrightarrow>
   set_ones rcs y ! r ! c = (if (r, c) \<in> set rcs then 1 else y ! r ! c)"
proof (induction rcs arbitrary: y)
  case Nil
  show ?case by (simp add: set_ones_def)
next
  case (Cons rc rcs)
  obtain r' c' where rc: "rc = (r', c')" by (cases rc)
  let ?y = "y[r' := (y ! r')[c' := 1]]"
  have len: "r < length ?y" "c < length (?y ! r)"
    using Cons.prems by (cases "r = r'"; simp)+
  have step: "?y ! r ! c = (if (r, c) = (r', c') then 1 else y ! r ! c)"
    using Cons.prems by (cases "r = r'"; cases "c = c'"; simp)
  have "set_ones (rc # rcs) y ! r ! c = set_ones rcs ?y ! r ! c"
    by (simp add: rc set_ones_Cons)
  also have "\<dots> = (if (r, c) \<in> set rcs then 1 else ?y ! r ! c)"
    by (rule Cons.IH [OF len])
  also have "\<dots> = (if (r, c) \<in> set (rc # rcs) then 1 else y ! r ! c)"
    unfolding step rc by auto
  finally show ?case .
qed

lemma length_threshold [simp]: "length (threshold_astype_int m) = length m"
  by (simp add: threshold_astype_int_def)

lemma length_threshold_row [simp]:
  "r < length m \<Longrightarrow> length (threshold_astype_int m ! r) = length (m ! r)"
  by (simp add: threshold_astype_int_def)

lemma threshold_nth:
  "r < length m \<Longrightarrow> c < length (m ! r) \<Longrightarrow>
   threshold_astype_int m ! r ! c = (if m ! r ! c \<ge> THRESHOLD then 1 else 0)"
  by (simp add: threshold_astype_int_def)

lemma sum_threshold_row_0:
  "r < length m \<Longrightarrow>
   sum_list (threshold_astype_int m ! r) = 0 \<longleftrightarrow> (\<forall>p\<in>set (m ! r). p < THRESHOLD)"
proof -
  assume r: "r < length m"
  have row: "threshold_astype_int m ! r = map (\<lambda>p. if p \<ge> THRESHOLD then 1 else 0) (m ! r)"
    using r by (simp add: threshold_astype_int_def)
  have nonneg: "\<forall>v\<in>set (threshold_astype_int m ! r). 0 \<le> v"
    unfolding row set_map by auto
  have "sum_list (threshold_astype_int m ! r) = 0
        \<longleftrightarrow> (\<forall>v\<in>set (threshold_astype_int m ! r). v = 0)"
    using nonneg by (simp add: sum_list_nonneg_eq_0_iff)
  also have "\<dots> \<longleftrightarrow> (\<forall>p\<in>set (m ! r). (if p \<ge> THRESHOLD then (1::int) else 0) = 0)"
    unfolding row set_map by blast
  also have "\<dots> \<longleftrightarrow> (\<forall>p\<in>set (m ! r). p < THRESHOLD)"
    by (auto simp: not_le split: if_splits)
  finally show ?thesis .
qed

lemma set_where_eq_0:
  "set (where_eq_0 (sum_axis1 (threshold_astype_int m))) =
     {r. r < length m \<and> (\<forall>p\<in>set (m ! r). p < THRESHOLD)}"
  by (auto simp: where_eq_0_def sum_axis1_def sum_threshold_row_0)

lemma argmax_Inr_iff:
  "argmax row = Inr c \<longleftrightarrow>
     row \<noteq> [] \<and> c = length (takeWhile (\<lambda>v. v < Max (set row)) row)"
  by (auto simp: argmax_def)

lemma argmax_first_max:
  assumes "argmax row = Inr c"
  shows "c < length row" "\<forall>j<length row. row ! j \<le> row ! c" "\<forall>j<c. row ! j < row ! c"
proof -
  let ?M = "Max (set row)"
  let ?P = "\<lambda>v. v < ?M"
  from assms have ne: "row \<noteq> []" and c: "c = length (takeWhile ?P row)"
    by (simp_all add: argmax_Inr_iff)
  have "?M \<in> set row" using ne by (simp add: Max_in)
  then have "\<not> (\<forall>v\<in>set row. ?P v)" by auto
  then have "takeWhile ?P row \<noteq> row" by (metis takeWhile_eq_all_conv)
  then have "length (takeWhile ?P row) \<noteq> length row"
    by (metis takeWhile_eq_take take_all_iff order_refl)
  with length_takeWhile_le [of ?P row] show lt: "c < length row" by (simp add: c)
  have "\<not> ?P (row ! c)" using lt nth_length_takeWhile [of ?P row] by (simp add: c)
  moreover have "row ! c \<le> ?M" using lt by simp
  ultimately have eq: "row ! c = ?M" by simp
  show "\<forall>j<length row. row ! j \<le> row ! c" by (simp add: eq)
  show "\<forall>j<c. row ! j < row ! c"
  proof (intro allI impI)
    fix j assume "j < c"
    then have "j < length (takeWhile ?P row)" by (simp add: c)
    then have "?P (takeWhile ?P row ! j)" by (metis nth_mem set_takeWhileD)
    then show "row ! j < row ! c"
      using \<open>j < length (takeWhile ?P row)\<close> by (simp add: takeWhile_nth eq)
  qed
qed

lemma argmax_unique:
  assumes "i < length row" "\<forall>j<length row. row ! j \<le> row ! i" "\<forall>j<i. row ! j < row ! i"
  shows "argmax row = Inr i"
proof -
  from assms(1) have "row \<noteq> []" by auto
  then obtain c where c: "argmax row = Inr c" by (auto simp: argmax_def)
  note f = argmax_first_max [OF c]
  have "\<not> c < i" using assms(3) f(2) assms(1) f(1) by (metis leD)
  moreover have "\<not> i < c" using f(3) assms(2) f(1) by (metis leD)
  ultimately show ?thesis using c by simp
qed

lemma zip_argmax:
  assumes "list_all2 (\<lambda>r c. argmax (m ! r) = Inr c) rs cs"
  shows "(r, c) \<in> set (zip rs cs) \<longleftrightarrow> r \<in> set rs \<and> argmax (m ! r) = Inr c"
proof
  assume "(r, c) \<in> set (zip rs cs)"
  then obtain k where "k < length rs" "rs ! k = r" "cs ! k = c"
    by (auto simp: in_set_zip)
  with assms show "r \<in> set rs \<and> argmax (m ! r) = Inr c"
    by (auto simp: list_all2_conv_all_nth)
next
  assume a: "r \<in> set rs \<and> argmax (m ! r) = Inr c"
  then obtain k where k: "k < length rs" "rs ! k = r" by (auto simp: in_set_conv_nth)
  with assms have "argmax (m ! r) = Inr (cs ! k)" "k < length cs"
    by (auto simp: list_all2_conv_all_nth)
  with a have "cs ! k = c" by simp
  with k \<open>k < length cs\<close> show "(r, c) \<in> set (zip rs cs)"
    by (auto simp: in_set_zip)
qed

lemma y_pred_bin_thresh_cases:
  assumes "y_pred_bin_thresh m = Inr y"
  obtains (unchanged) "where_eq_0 (sum_axis1 (threshold_astype_int m)) = []"
      "y = threshold_astype_int m"
    | (fallback) cs where
      "list_all2 (\<lambda>r c. argmax (m ! r) = Inr c)
         (where_eq_0 (sum_axis1 (threshold_astype_int m))) cs"
      "y = set_ones (zip (where_eq_0 (sum_axis1 (threshold_astype_int m))) cs)
             (threshold_astype_int m)"
proof (cases "where_eq_0 (sum_axis1 (threshold_astype_int m)) = []")
  case True
  with assms have "y = threshold_astype_int m"
    by (simp add: y_pred_bin_thresh_def Let_def)
  with True show ?thesis by (rule unchanged)
next
  case False
  with assms obtain cs where
    cs: "argmax_axis1 (map (\<lambda>r. m ! r) (where_eq_0 (sum_axis1 (threshold_astype_int m))))
          = Inr cs"
    and y: "y = set_ones (zip (where_eq_0 (sum_axis1 (threshold_astype_int m))) cs)
             (threshold_astype_int m)"
    by (auto simp: y_pred_bin_thresh_def Let_def bind_exn_Inr_iff)
  from cs have "list_all2 (\<lambda>r c. argmax (m ! r) = Inr c)
         (where_eq_0 (sum_axis1 (threshold_astype_int m))) cs"
    by (simp add: argmax_axis1_def map_exn_map map_exn_Inr_iff)
  then show ?thesis using y by (rule fallback)
qed

lemma y_pred_bin_thresh_length:
  assumes "y_pred_bin_thresh m = Inr y"
  shows "length y = length m"
  using assms by (cases rule: y_pred_bin_thresh_cases) (simp_all add: length_set_ones)

lemma y_pred_bin_thresh_row_length:
  assumes "y_pred_bin_thresh m = Inr y" "r < length m"
  shows "length (y ! r) = length (m ! r)"
  using assms(1)
  by (cases rule: y_pred_bin_thresh_cases) (simp_all add: length_set_ones_row assms(2))

lemma y_pred_bin_thresh_nth:
  assumes "y_pred_bin_thresh m = Inr y" and r: "r < length m" and c: "c < length (m ! r)"
  shows "y ! r ! c =
           (if m ! r ! c \<ge> THRESHOLD \<or>
               ((\<forall>p\<in>set (m ! r). p < THRESHOLD) \<and> argmax (m ! r) = Inr c)
            then 1 else 0)"
  using assms(1)
proof (cases rule: y_pred_bin_thresh_cases)
  case unchanged
  then have "r \<notin> set (where_eq_0 (sum_axis1 (threshold_astype_int m)))" by simp
  with r have "\<not> (\<forall>p\<in>set (m ! r). p < THRESHOLD)" by (simp add: set_where_eq_0)
  then show ?thesis using r c by (simp add: unchanged(2) threshold_nth)
next
  case (fallback cs)
  have below: "m ! r ! c < THRESHOLD" if "\<forall>p\<in>set (m ! r). p < THRESHOLD"
    using that c by simp
  have "y ! r ! c =
      (if (r, c) \<in> set (zip (where_eq_0 (sum_axis1 (threshold_astype_int m))) cs) then 1
       else threshold_astype_int m ! r ! c)"
    using r c unfolding fallback(2) by (intro set_ones_nth) simp_all
  also have "\<dots> = (if m ! r ! c \<ge> THRESHOLD \<or>
               ((\<forall>p\<in>set (m ! r). p < THRESHOLD) \<and> argmax (m ! r) = Inr c)
            then 1 else 0)"
    using r c below
    by (auto simp: zip_argmax [OF fallback(1)] set_where_eq_0 threshold_nth)
  finally show ?thesis .
qed

lemma map_exn_total:
  "(\<forall>x\<in>set xs. \<exists>y. f x = Inr y) \<Longrightarrow> \<exists>ys. map_exn f xs = Inr ys"
  by (induction xs) auto

lemma y_pred_bin_thresh_total:
  assumes "\<forall>row\<in>set m. row \<noteq> []"
  shows "\<exists>y. y_pred_bin_thresh m = Inr y"
proof -
  let ?rs = "where_eq_0 (sum_axis1 (threshold_astype_int m))"
  have "\<forall>r\<in>set ?rs. \<exists>c. argmax (m ! r) = Inr c"
    using assms by (auto simp: set_where_eq_0 argmax_def)
  then obtain cs where "argmax_axis1 (map (\<lambda>r. m ! r) ?rs) = Inr cs"
    using map_exn_total [of ?rs "\<lambda>r. argmax (m ! r)"]
    by (auto simp: argmax_axis1_def map_exn_map)
  then show ?thesis
    by (simp add: y_pred_bin_thresh_def Let_def bind_exn_def)
qed

lemma filter_enumerate:
  "[(i, val) \<leftarrow> enumerate 0 row. val = v] =
     map (\<lambda>j. (j, row ! j)) [j \<leftarrow> [0..<length row]. row ! j = v]"
proof -
  have "enumerate 0 row = map (\<lambda>j. (j, row ! j)) [0..<length row]"
    by (rule nth_equalityI) (simp_all add: nth_enumerate_eq)
  then show ?thesis by (simp add: filter_map comp_def)
qed

lemma predicted_labels_Inr_iff:
  "predicted_labels y = Inr labels \<longleftrightarrow>
     y \<noteq> [] \<and>
     (\<forall>j<length (y ! 0). y ! 0 ! j = 1 \<longrightarrow> j < length MULTILABEL_CLASSES) \<and>
     labels = map (nth MULTILABEL_CLASSES) [j \<leftarrow> [0..<length (y ! 0)]. y ! 0 ! j = 1]"
proof (cases "y = []")
  case True
  then show ?thesis by (simp add: predicted_labels_def py_index_def bind_exn_def)
next
  case False
  then have "py_index y 0 = Inr (y ! 0)" by (simp add: py_index_def)
  then have "predicted_labels y =
      map_exn (py_index MULTILABEL_CLASSES) [j \<leftarrow> [0..<length (y ! 0)]. y ! 0 ! j = 1]"
    by (simp add: predicted_labels_def bind_exn_def filter_enumerate map_exn_map)
  then show ?thesis using False by (auto simp: map_exn_py_index)
qed

section \<open>The cleaned text\<close>

lemma lower_char_fixed: "is_lower_alnum c \<or> is_space c \<Longrightarrow> lower_char c = c"
  by (auto simp: is_lower_alnum_def is_space_def lower_char_def Let_def)

lemma re_sub_chars:
  "\<forall>c\<in>set (re_sub_non_alnum s). is_lower_alnum c \<or> is_space c"
  by (auto simp: re_sub_non_alnum_def is_space_def)

lemma str_lower_re_sub: "str_lower (re_sub_non_alnum s) = re_sub_non_alnum s"
  unfolding str_lower_def
  by (rule map_idI) (use re_sub_chars in \<open>auto simp: lower_char_fixed\<close>)


section \<open>Runs of the pipeline\<close>

lemma and_then_Inr_iff:
  "and_then m f = (cs, Inr y) \<longleftrightarrow>
     (\<exists>c1 x c2. m = (c1, Inr x) \<and> f x = (c2, Inr y) \<and> cs = c1 @ c2)"
  by (cases m; cases "snd m") (auto simp: and_then_def split: prod.splits)

lemma no_call_eq_iff: "no_call r = (cs, r') \<longleftrightarrow> cs = [] \<and> r = r'"
  by (auto simp: no_call_def)

lemma call_eq_iff: "call c r = (cs, r') \<longleftrightarrow> cs = [c] \<and> r = r'"
  by (auto simp: call_def)

lemma classify_traced_cases:
  assumes "classify_traced nl self email_text = (cs, Inr res)"
  obtains (spam)
      "res = \<lparr>primary_classification = ''Spam'', detailed_labels = []\<rparr>"
      "cs = [SpamVecTransform, SpamClfPredict]"
    | (no_spam) m y labels where
      "y_pred_bin_thresh m = Inr y" "predicted_labels y = Inr labels"
      "res = \<lparr>primary_classification = ''No-Spam'', detailed_labels = labels\<rparr>"
      "cs = [SpamVecTransform, SpamClfPredict, MlVecTransform, MlClfPredictProba]"
  using assms unfolding classify_traced_def
  by (auto simp: and_then_Inr_iff no_call_eq_iff call_eq_iff split: if_splits)

lemma y_pred_bin_thresh_argmax:
  assumes "y_pred_bin_thresh m = Inr y" "r < length m" "\<forall>p\<in>set (m ! r). p < THRESHOLD"
  shows "\<exists>c. argmax (m ! r) = Inr c"
proof -
  have r: "r \<in> set (where_eq_0 (sum_axis1 (threshold_astype_int m)))"
    using assms(2,3) by (simp add: set_where_eq_0)
  from assms(1) show ?thesis
  proof (cases rule: y_pred_bin_thresh_cases)
    case unchanged
    with r show ?thesis by simp
  next
    case (fallback cs)
    with r show ?thesis
      by (auto simp: list_all2_conv_all_nth in_set_conv_nth)
  qed
qed

lemma row_has_one:
  assumes y: "y_pred_bin_thresh m = Inr y" and r: "r < length m"
  shows "\<exists>c<length (y ! r). y ! r ! c = 1"
proof (cases "\<forall>p\<in>set (m ! r). p < THRESHOLD")
  case True
  from y_pred_bin_thresh_argmax [OF y r True] obtain c where c: "argmax (m ! r) = Inr c" ..
  then have lt: "c < length (m ! r)" by (rule argmax_first_max)
  have "y ! r ! c = 1" using True c by (simp add: y_pred_bin_thresh_nth [OF y r lt])
  with lt show ?thesis by (auto simp: y_pred_bin_thresh_row_length [OF y r])
next
  case False
  then obtain c where lt: "c < length (m ! r)" and "m ! r ! c \<ge> THRESHOLD"
    by (auto simp: in_set_conv_nth not_less)
  then have "y ! r ! c = 1" by (simp add: y_pred_bin_thresh_nth [OF y r lt])
  with lt show ?thesis by (auto simp: y_pred_bin_thresh_row_length [OF y r])
qed

lemma predicted_labels_nonempty:
  assumes y: "y_pred_bin_thresh m = Inr y" and l: "predicted_labels y = Inr labels"
  shows "labels \<noteq> []"
proof -
  from l have ne: "y \<noteq> []"
    and labels: "labels = map (nth MULTILABEL_CLASSES) [j \<leftarrow> [0..<length (y ! 0)]. y ! 0 ! j = 1]"
    by (simp_all add: predicted_labels_Inr_iff)
  from ne have "0 < length m" by (simp add: y_pred_bin_thresh_length [OF y, symmetric])
  from row_has_one [OF y this] obtain c where "c < length (y ! 0)" "y ! 0 ! c = 1" by auto
  then have "c \<in> set [j \<leftarrow> [0..<length (y ! 0)]. y ! 0 ! j = 1]" by simp
  then show ?thesis unfolding labels by (metis list.map_disc_iff empty_iff list.set(1))
qed

lemma distinct_MULTILABEL_CLASSES: "distinct MULTILABEL_CLASSES"
  by (simp add: MULTILABEL_CLASSES_def)

lemma length_MULTILABEL_CLASSES: "length MULTILABEL_CLASSES = 10"
  by (simp add: MULTILABEL_CLASSES_def)

lemma schema_order:
  assumes "predicted_labels y = Inr labels"
  shows "distinct labels" "set labels \<subseteq> set MULTILABEL_CLASSES"
    "subseq labels MULTILABEL_CLASSES"
proof -
  let ?js = "[j \<leftarrow> [0..<length (y ! 0)]. y ! 0 ! j = 1]"
  from assms have bound: "\<forall>j\<in>set ?js. j < length MULTILABEL_CLASSES"
    and labels: "labels = map (nth MULTILABEL_CLASSES) ?js"
    by (simp_all add: predicted_labels_Inr_iff)
  have "inj_on (nth MULTILABEL_CLASSES) (set ?js)"
    using distinct_MULTILABEL_CLASSES bound by (rule inj_on_nth)
  then show "distinct labels" by (simp add: labels distinct_map)
  show "set labels \<subseteq> set MULTILABEL_CLASSES"
    using bound unfolding labels by auto
  have "sorted_wrt (<) ?js" by (simp add: sorted_wrt_filter)
  moreover have "set ?js \<subseteq> set [0..<length MULTILABEL_CLASSES]"
    using bound by auto
  ultimately have "subseq ?js [0..<length MULTILABEL_CLASSES]"
    by (intro sorted_subset_imp_subseq) simp_all
  then have "subseq (map (nth MULTILABEL_CLASSES) ?js)
               (map (nth MULTILABEL_CLASSES) [0..<length MULTILABEL_CLASSES])"
    by (rule subseq_map)
  then show "subseq labels MULTILABEL_CLASSES" by (simp add: labels map_nth)
qed

lemma filter_upt_single:
  assumes "i < n" "\<forall>j<n. P j \<longleftrightarrow> j = i"
  shows "filter P [0..<n] = [i]"
proof (rule sorted_distinct_set_unique)
  show "sorted (filter P [0..<n])" by (simp add: sorted_wrt_filter)
  show "set (filter P [0..<n]) = set [i]" using assms by auto
qed simp_all

lemma labelling_total:
  assumes "m \<noteq> []" and "\<forall>row\<in>set m. length row = 10"
  obtains y labels where "y_pred_bin_thresh m = Inr y" "predicted_labels y = Inr labels"
proof -
  from assms(2) have "\<forall>row\<in>set m. row \<noteq> []" by auto
  from y_pred_bin_thresh_total [OF this] obtain y where y: "y_pred_bin_thresh m = Inr y" ..
  have "y \<noteq> []" using assms(1) y_pred_bin_thresh_length [OF y] by auto
  moreover have "length (y ! 0) = 10"
    using assms y_pred_bin_thresh_row_length [OF y, of 0] by simp
  ultimately have "predicted_labels y =
      Inr (map (nth MULTILABEL_CLASSES) [j \<leftarrow> [0..<length (y ! 0)]. y ! 0 ! j = 1])"
    by (simp add: predicted_labels_Inr_iff length_MULTILABEL_CLASSES)
  with y show ?thesis by (rule that)
qed

section \<open>Loading, file by file\<close>

lemma load_pkl_cases:
  "load_pkl fs dir name =
     (case fs (os_path_join dir name) of
        Missing \<Rightarrow>
          Inl (Exn FileNotFoundError (Some (os_path_join dir name))
                 (''[Errno 2] No such file or directory: '' @ [CHR 0x27]
                  @ os_path_join dir name @ [CHR 0x27]))
      | Denied \<Rightarrow>
          Inl (Exn PermissionError (Some (os_path_join dir name))
                 (''[Errno 13] Permission denied: '' @ [CHR 0x27]
                  @ os_path_join dir name @ [CHR 0x27]))
      | NotAPickle \<Rightarrow> Inl (Exn UnpicklingError None ''invalid load key'')
      | Pickled obj \<Rightarrow> Inr obj)"
  by (simp add: load_pkl_def open_rb_def pickle_load_def bind_exn_def split: pkl_file.splits)

lemma load_pipeline_assets_find:
  "load_pipeline_assets fs self =
     (case find (\<lambda>p. \<not> is_Pickled (fs p)) (asset_paths (model_dir self)) of
        None \<Rightarrow>
          Inr (self\<lparr>spam_vec := Some (the_object (fs (asset_paths (model_dir self) ! 0))),
                    spam_clf := Some (the_object (fs (asset_paths (model_dir self) ! 1))),
                    ml_vec := Some (the_object (fs (asset_paths (model_dir self) ! 2))),
                    ml_clf := Some (the_object (fs (asset_paths (model_dir self) ! 3)))\<rparr>)
      | Some p \<Rightarrow>
          Inl (case fs p of
                 Missing \<Rightarrow>
                   Exn FileNotFoundError None
                     (''Required model asset not found: '' @ p @ ''. ''
                      @ ''Ensure your model_assets directory exists and contains all four .pkl files.'')
               | Denied \<Rightarrow>
                   Exn PermissionError (Some p)
                     (''[Errno 13] Permission denied: '' @ [CHR 0x27] @ p @ [CHR 0x27])
               | _ \<Rightarrow> Exn UnpicklingError None ''invalid load key''))"
proof -
  let ?p1 = "os_path_join (model_dir self) ''spam_vectorizer.pkl''"
  let ?p2 = "os_path_join (model_dir self) ''spam_model.pkl''"
  let ?p3 = "os_path_join (model_dir self) ''multilabel_vectorizer.pkl''"
  let ?p4 = "os_path_join (model_dir self) ''multilabel_model.pkl''"
  have paths: "asset_paths (model_dir self) = [?p1, ?p2, ?p3, ?p4]"
    by (simp add: asset_paths_def)
  show ?thesis
  proof (cases "fs ?p1")
    case (Pickled a)
    show ?thesis
    proof (cases "fs ?p2")
      case (Pickled b)
      show ?thesis
      proof (cases "fs ?p3")
        case (Pickled c)
        show ?thesis
          using \<open>fs ?p1 = Pickled a\<close> \<open>fs ?p2 = Pickled b\<close> \<open>fs ?p3 = Pickled c\<close>
          by (cases "fs ?p4")
            (simp_all add: paths load_pipeline_assets_def load_pkl_cases bind_exn_def
              format_filename_def)
      qed (use \<open>fs ?p1 = Pickled a\<close> \<open>fs ?p2 = Pickled b\<close> in
            \<open>simp_all add: paths load_pipeline_assets_def load_pkl_cases bind_exn_def
              format_filename_def\<close>)
    qed (use \<open>fs ?p1 = Pickled a\<close> in
          \<open>simp_all add: paths load_pipeline_assets_def load_pkl_cases bind_exn_def
            format_filename_def\<close>)
  qed (simp_all add: paths load_pipeline_assets_def load_pkl_cases bind_exn_def
        format_filename_def)
qed

section \<open>Calls that leave the state unchanged\<close>

lemma eff_bind_pure:
  "eff_bind (eff_pure r) f w = (case r of Inl e \<Rightarrow> (w, Inl e) | Inr x \<Rightarrow> f x w)"
  by (simp add: eff_bind_def eff_pure_def split: sum.splits)

lemma leaves_unchanged_pure: "leaves_unchanged (eff_pure r)"
  by (simp add: leaves_unchanged_def eff_pure_def)

lemma leaves_unchanged_bind:
  assumes "leaves_unchanged m"
    and "\<And>w x. snd (m w) = Inr x \<Longrightarrow> leaves_unchanged (f x)"
  shows "leaves_unchanged (eff_bind m f)"
  unfolding leaves_unchanged_def
proof
  fix w
  obtain w' r where mw: "m w = (w', r)" by (cases "m w")
  with assms(1) have w': "w' = w" by (auto simp: leaves_unchanged_def dest: spec [of _ w])
  show "fst (eff_bind m f w) = w"
  proof (cases r)
    case (Inl e)
    with mw w' show ?thesis by (simp add: eff_bind_def)
  next
    case (Inr x)
    with mw have "leaves_unchanged (f x)" by (intro assms(2) [of w]) simp
    with mw w' Inr show ?thesis by (simp add: eff_bind_def leaves_unchanged_def)
  qed
qed

lemma leaves_unchanged_if:
  "leaves_unchanged a \<Longrightarrow> leaves_unchanged b \<Longrightarrow> leaves_unchanged (if c then a else b)"
  by simp

lemma leaves_unchanged_map:
  assumes "\<And>x. leaves_unchanged (f x)"
  shows "leaves_unchanged (eff_map f xs)"
  by (induction xs) (simp_all add: leaves_unchanged_pure leaves_unchanged_bind assms)

lemma leaves_unchanged_getattr:
  assumes "\<And>v. a = Some v \<Longrightarrow> leaves_unchanged (f v)"
  shows "leaves_unchanged (eff_bind (eff_pure (getattr a)) f)"
proof (rule leaves_unchanged_bind [OF leaves_unchanged_pure])
  fix w :: 'b and x
  assume "snd (eff_pure (getattr a) w) = Inr x"
  then have "a = Some x" by (cases a) (simp_all add: eff_pure_def getattr_def)
  then show "leaves_unchanged (f x)" by (rule assms)
qed

lemma preprocess_email_st_unchanged:
  assumes "assets_unchanged tok self"
  shows "leaves_unchanged (preprocess_email_st tok self email_text)"
proof (cases email_text)
  case (PyStr s)
  have "leaves_unchanged (tok s')" "leaves_unchanged (lemmatizer_st self t)" for s' t
    using assms by (simp_all add: assets_unchanged_def)
  then show ?thesis
    by (simp add: PyStr preprocess_email_st_def Let_def leaves_unchanged_bind
        leaves_unchanged_map)
qed (simp_all add: preprocess_email_st_def leaves_unchanged_pure)

lemma classify_st_unchanged:
  assumes "assets_unchanged tok self"
  shows "leaves_unchanged (classify_st tok self email_text)"
proof -
  note a = assms [unfolded assets_unchanged_def]
  have sv: "leaves_unchanged (transform_st sv docs)" if "spam_vec_st self = Some sv" for sv docs
    using a that by blast
  have sc: "leaves_unchanged (predict_st sc X)" if "spam_clf_st self = Some sc" for sc X
    using a that by blast
  have mv: "leaves_unchanged (transform_st mv docs)" if "ml_vec_st self = Some mv" for mv docs
    using a that by blast
  have mc: "leaves_unchanged (predict_proba_st mc X)" if "ml_clf_st self = Some mc" for mc X
    using a that by blast
  show ?thesis
    unfolding classify_st_def
    by (rule leaves_unchanged_getattr | rule leaves_unchanged_pure
        | rule preprocess_email_st_unchanged [OF assms]
        | erule sv | erule sc | erule mv | erule mc
        | rule leaves_unchanged_if | rule leaves_unchanged_bind)+
qed

text \<open>
  On objects whose calls touch no state the two embeddings of \<^verbatim>\<open>classify\<close> agree.
\<close>

lemma eff_bind_pure_fun:
  "eff_bind (eff_pure r) f = (case r of Inl e \<Rightarrow> eff_pure (Inl e) | Inr x \<Rightarrow> f x)"
  by (rule ext) (simp add: eff_bind_def eff_pure_def split: sum.splits)

lemma eff_map_pure: "eff_map (\<lambda>t. eff_pure (f t)) xs = eff_pure (map_exn f xs)"
  by (induction xs) (simp_all add: eff_bind_pure_fun split: sum.splits)

lemma preprocess_email_st_lift:
  "preprocess_email_st (\<lambda>s. eff_pure (word_tokenize nl s)) (lift_classifier c) x =
     eff_pure (preprocess_email nl c x)"
  by (cases x)
    (simp_all add: preprocess_email_st_def preprocess_email_def lift_classifier_def Let_def
      eff_bind_pure_fun eff_map_pure bind_exn_def split: sum.splits)

lemma classify_st_lift:
  "classify_st (\<lambda>s. eff_pure (word_tokenize nl s)) (lift_classifier c) x =
     eff_pure (classify nl c x)"
  unfolding classify_st_def classify_def classify_traced_def preprocess_email_st_lift
  by (cases "spam_vec c"; cases "spam_clf c"; cases "ml_vec c"; cases "ml_clf c")
    (simp_all add: eff_bind_pure_fun and_then_def no_call_def call_def getattr_def
      lift_classifier_def lift_estimator_def split: sum.splits prod.splits)

section \<open>The small instance, evaluated\<close>

lemmas loading_defs =
  load_pipeline_assets_def load_pkl_def open_rb_def pickle_load_def os_path_join_def
  bind_exn_def format_filename_def

lemma toy_load: "load_pipeline_assets toy_fs toy_unloaded = Inr toy_classifier"
  by (simp add: loading_defs toy_fs_def toy_unloaded_def toy_classifier_def)

lemmas toy_defs =
  toy_nltk_def toy_classifier_def toy_vectorizer_def toy_spam_model_def toy_topic_model_def
  no_method_def

lemmas preprocess_defs =
  preprocess_email_def str_lower_def lower_char_def re_sub_non_alnum_def is_lower_alnum_def
  is_space_def bind_exn_def

lemmas pipeline_defs =
  classify_traced_def and_then_def no_call_def call_def getattr_def py_index_def

lemmas labelling_defs =
  y_pred_bin_thresh_def threshold_astype_int_def THRESHOLD_def sum_axis1_def where_eq_0_def
  predicted_labels_def enumerate_eq_zip MULTILABEL_CLASSES_def argmax_axis1_def argmax_def
  set_ones_def

lemma toy_preprocess_dos:
  "preprocess_email toy_nltk toy_classifier (PyStr ''send the dos'') = Inr [''send'', ''do'']"
  by (simp add: preprocess_defs toy_defs)

lemma toy_preprocess_stopwords:
  "preprocess_email toy_nltk toy_classifier (PyStr ''the and'') = Inr []"
  by (simp add: preprocess_defs toy_defs)

lemma toy_preprocess_hello:
  "preprocess_email toy_nltk toy_classifier (PyStr ''hello'') = Inr [''hello'']"
  by (simp add: preprocess_defs toy_defs)

lemma toy_classify_spam:
  "classify_traced toy_nltk toy_classifier (PyStr ''the and'') =
     ([SpamVecTransform, SpamClfPredict],
      Inr \<lparr>primary_classification = ''Spam'', detailed_labels = []\<rparr>)"
  unfolding classify_traced_def toy_preprocess_stopwords
  by (simp add: pipeline_defs toy_defs)

lemma toy_classify_dos:
  "classify_traced toy_nltk toy_classifier (PyStr ''send the dos'') =
     ([SpamVecTransform, SpamClfPredict, MlVecTransform, MlClfPredictProba],
      Inr \<lparr>primary_classification = ''No-Spam'',
           detailed_labels = [''Reminders'', ''Finance & Bills'']\<rparr>)"
  unfolding classify_traced_def toy_preprocess_dos
  by (simp add: pipeline_defs toy_defs labelling_defs bind_exn_def)

lemma toy_classify_hello:
  "classify_traced toy_nltk toy_classifier (PyStr ''hello'') =
     ([SpamVecTransform, SpamClfPredict, MlVecTransform, MlClfPredictProba],
      Inr \<lparr>primary_classification = ''No-Spam'', detailed_labels = [''Reminders'']\<rparr>)"
  unfolding classify_traced_def toy_preprocess_hello
  by (simp add: pipeline_defs toy_defs labelling_defs bind_exn_def)

lemma toy_assets_unchanged: "assets_unchanged toy_word_tokenize_st toy_classifier_st"
  by (simp add: assets_unchanged_def toy_classifier_st_def toy_word_tokenize_st_def
      toy_vectorizer_st_def toy_spam_model_st_def toy_topic_model_st_def
      leaves_unchanged_pure)
    (simp add: leaves_unchanged_def)

lemmas toy_st_defs =
  toy_classifier_st_def toy_word_tokenize_st_def toy_vectorizer_st_def toy_spam_model_st_def
  toy_topic_model_st_def toy_counting_classifier_st_def toy_counting_spam_model_st_def

lemma toy_preprocess_st:
  "preprocess_email_st toy_word_tokenize_st toy_classifier_st (PyStr ''send the dos'') w =
     (w, Inr [''send'', ''do''])"
  "preprocess_email_st toy_word_tokenize_st toy_counting_classifier_st (PyStr ''send the dos'')
     w = (w, Inr [''send'', ''do''])"
  by (simp_all add: preprocess_email_st_def str_lower_def lower_char_def re_sub_non_alnum_def
      is_lower_alnum_def is_space_def eff_bind_def eff_pure_def toy_st_defs toy_nltk_def)

lemma eff_bind_value:
  "m w = (w', Inr x) \<Longrightarrow> eff_bind m f w = f x w'"
  by (simp add: eff_bind_def)

lemma toy_classify_st:
  "classify_st toy_word_tokenize_st toy_classifier_st (PyStr ''send the dos'') 7 =
     (7, Inr \<lparr>primary_classification = ''No-Spam'',
              detailed_labels = [''Reminders'', ''Finance & Bills'']\<rparr>)"
  unfolding classify_st_def eff_bind_value [OF toy_preprocess_st(1)]
  by (simp add: eff_bind_def eff_pure_def getattr_def py_index_def toy_st_defs toy_defs
      labelling_defs bind_exn_def)

lemma toy_counting_first_call:
  "classify_st toy_word_tokenize_st toy_counting_classifier_st (PyStr ''send the dos'') 0 =
     (1, Inr \<lparr>primary_classification = ''No-Spam'',
              detailed_labels = [''Reminders'', ''Finance & Bills'']\<rparr>)"
  unfolding classify_st_def eff_bind_value [OF toy_preprocess_st(2)]
  by (simp add: eff_bind_def eff_pure_def getattr_def py_index_def toy_st_defs toy_defs
      labelling_defs bind_exn_def)

lemma toy_counting_second_call:
  "classify_st toy_word_tokenize_st toy_counting_classifier_st (PyStr ''send the dos'') 1 =
     (2, Inr \<lparr>primary_classification = ''Spam'', detailed_labels = []\<rparr>)"
  unfolding classify_st_def eff_bind_value [OF toy_preprocess_st(2)]
  by (simp add: eff_bind_def eff_pure_def getattr_def py_index_def toy_st_defs toy_defs)

text \<open>
  When a call does change the state the second call need not agree with the first: with
  the spam model that counts its calls, the same text is \<^verbatim>\<open>"No-Spam"\<close> in the first
  call and \<^verbatim>\<open>"Spam"\<close> in the second.
\<close>

lemma toy_counting_calls_differ:
  "snd (classify_st toy_word_tokenize_st toy_counting_classifier_st (PyStr ''send the dos'')
          (fst (classify_st toy_word_tokenize_st toy_counting_classifier_st
                  (PyStr ''send the dos'') 0)))
     \<noteq> snd (classify_st toy_word_tokenize_st toy_counting_classifier_st
                (PyStr ''send the dos'') 0)"
  unfolding toy_counting_first_call fst_conv snd_conv toy_counting_second_call
  by simp

section \<open>The pipeline returns\<close>

text \<open>
  When the resources and the estimators return and the topic model gives a matrix with
  at least one row and ten columns, \<^verbatim>\<open>classify\<close> returns a result: the theorems
  below, which speak of the results, are about runs that exist.
\<close>

lemma classify_returns:
  assumes "preprocess_email nl self email_text = Inr email_tokens"
    and "spam_vec self = Some sv" and "transform sv [email_tokens] = Inr X_spam"
    and "spam_clf self = Some sc" and "predict sc X_spam = Inr (p # rest)"
    and "ml_vec self = Some mv" and "transform mv [email_tokens] = Inr X_multilabel"
    and "ml_clf self = Some mc" and "predict_proba mc X_multilabel = Inr m"
    and "m \<noteq> []" and "\<forall>row\<in>set m. length row = 10"
  shows "\<exists>res. classify nl self email_text = Inr res"
proof -
  from labelling_total [OF assms(10,11)] obtain y labels
    where "y_pred_bin_thresh m = Inr y" "predicted_labels y = Inr labels" .
  with assms(1-9) show ?thesis
    by (simp add: classify_def pipeline_defs)
qed

section \<open>Labels and the primary classification\<close>

text \<open>
  Claim C1. Whenever \<^verbatim>\<open>classify\<close> returns a result, its list of detailed labels is
  empty if and only if its primary classification is \<^verbatim>\<open>"Spam"\<close>: a result of the
  topic stage always has a label, by the threshold or by the fallback.
\<close>

theorem labels_empty_iff_spam:
  assumes "classify nl self email_text = Inr res"
  shows "detailed_labels res = [] \<longleftrightarrow> primary_classification res = ''Spam''"
proof -
  from assms obtain cs where "classify_traced nl self email_text = (cs, Inr res)"
    by (cases "classify_traced nl self email_text") (simp add: classify_def)
  then show ?thesis
  proof (cases rule: classify_traced_cases)
    case spam
    then show ?thesis by simp
  next
    case (no_spam m y labels)
    from predicted_labels_nonempty [OF no_spam(1,2)] show ?thesis by (simp add: no_spam(3))
  qed
qed

theorem labels_empty_iff_spam_witness:
  "classify toy_nltk toy_classifier (PyStr ''send the dos'') =
     Inr \<lparr>primary_classification = ''No-Spam'',
          detailed_labels = [''Reminders'', ''Finance & Bills'']\<rparr>
   \<and> ([''Reminders'', ''Finance & Bills''] = [] \<longleftrightarrow> ''No-Spam'' = ''Spam'')"
proof -
  have h: "classify toy_nltk toy_classifier (PyStr ''send the dos'') =
     Inr \<lparr>primary_classification = ''No-Spam'',
          detailed_labels = [''Reminders'', ''Finance & Bills'']\<rparr>"
    by (simp add: classify_def toy_classify_dos)
  from labels_empty_iff_spam [OF h] h show ?thesis by simp
qed

section \<open>Input that is not a string\<close>

text \<open>
  Claim C5. For every input that is not a string, the preprocessing returns the empty
  token list and raises nothing.
\<close>

theorem preprocess_non_string:
  "\<not> isinstance_str v \<Longrightarrow> preprocess_email nl self v = Inr []"
  by (cases v) (simp_all add: preprocess_email_def)

theorem preprocess_non_string_witness:
  "\<not> isinstance_str (PyInt 42) \<and> preprocess_email toy_nltk toy_classifier (PyInt 42) = Inr []"
  using preprocess_non_string [of "PyInt 42" toy_nltk toy_classifier] by simp

section \<open>The order of the labels\<close>

text \<open>
  Claim C10. In every result whose primary classification is \<^verbatim>\<open>"No-Spam"\<close>, the
  detailed labels have no repetition, each of them is one of the ten names of
  \<open>MULTILABEL_CLASSES\<close>, and they stand in the order of \<open>MULTILABEL_CLASSES\<close>.
\<close>

theorem no_spam_labels_in_schema_order:
  assumes "classify nl self email_text = Inr res"
    and "primary_classification res = ''No-Spam''"
  shows "distinct (detailed_labels res) \<and>
         set (detailed_labels res) \<subseteq> set MULTILABEL_CLASSES \<and>
         subseq (detailed_labels res) MULTILABEL_CLASSES"
proof -
  from assms(1) obtain cs where "classify_traced nl self email_text = (cs, Inr res)"
    by (cases "classify_traced nl self email_text") (simp add: classify_def)
  then show ?thesis
  proof (cases rule: classify_traced_cases)
    case spam
    with assms(2) show ?thesis by simp
  next
    case (no_spam m y labels)
    from schema_order [OF no_spam(2)] show ?thesis by (simp add: no_spam(3))
  qed
qed

theorem no_spam_labels_in_schema_order_witness:
  "classify toy_nltk toy_classifier (PyStr ''send the dos'') =
     Inr \<lparr>primary_classification = ''No-Spam'',
          detailed_labels = [''Reminders'', ''Finance & Bills'']\<rparr>
   \<and> distinct [''Reminders'', ''Finance & Bills'']
   \<and> subseq [''Reminders'', ''Finance & Bills''] MULTILABEL_CLASSES"
proof -
  have h: "classify toy_nltk toy_classifier (PyStr ''send the dos'') =
     Inr \<lparr>primary_classification = ''No-Spam'',
          detailed_labels = [''Reminders'', ''Finance & Bills'']\<rparr>"
    by (simp add: classify_def toy_classify_dos)
  from no_spam_labels_in_schema_order [OF h] h show ?thesis by simp
qed

section \<open>Spam ends the call\<close>

text \<open>
  Claim C7. When the spam model predicts 1 for the tokens of the input, \<^verbatim>\<open>classify\<close>
  returns the result \<^verbatim>\<open>"Spam"\<close> with no labels, and the only calls it has made on
  the estimators are the transform of the spam vectorizer and the prediction of the spam
  model: the topic vectorizer and the topic model are not called.
\<close>

theorem spam_short_circuit:
  assumes "preprocess_email nl self email_text = Inr email_tokens"
    and "spam_vec self = Some sv" and "transform sv [email_tokens] = Inr X_spam"
    and "spam_clf self = Some sc" and "predict sc X_spam = Inr (1 # rest)"
  shows "classify_traced nl self email_text =
           ([SpamVecTransform, SpamClfPredict],
            Inr \<lparr>primary_classification = ''Spam'', detailed_labels = []\<rparr>)"
  using assms by (simp add: pipeline_defs)

theorem spam_short_circuit_witness:
  "preprocess_email toy_nltk toy_classifier (PyStr ''the and'') = Inr []
   \<and> spam_vec toy_classifier = Some toy_vectorizer
   \<and> transform toy_vectorizer [[]] = Inr [0]
   \<and> spam_clf toy_classifier = Some toy_spam_model
   \<and> predict toy_spam_model [0] = Inr (1 # [])
   \<and> classify_traced toy_nltk toy_classifier (PyStr ''the and'') =
           ([SpamVecTransform, SpamClfPredict],
            Inr \<lparr>primary_classification = ''Spam'', detailed_labels = []\<rparr>)"
proof -
  have h: "spam_vec toy_classifier = Some toy_vectorizer"
    "transform toy_vectorizer [[]] = Inr [0]"
    "spam_clf toy_classifier = Some toy_spam_model"
    "predict toy_spam_model [0] = Inr (1 # [])"
    by (simp_all add: toy_defs)
  from spam_short_circuit [OF toy_preprocess_stopwords h] toy_preprocess_stopwords h
  show ?thesis by simp
qed

section \<open>Determinism\<close>

text \<open>
  Claim C9. Two calls of \<^verbatim>\<open>classify\<close> with the same input give the same result when
  the model assets are unchanged: if the calls on the tokenizer, the lemmatizer and the
  four estimators leave the state of these objects as they found it, then the state after
  a call of \<^verbatim>\<open>classify\<close> is the state before it, and a second call made in the state
  that the first call leaves returns the result of the first.
\<close>

theorem classify_twice_same_result:
  assumes "assets_unchanged tok self"
  shows "fst (classify_st tok self email_text w) = w
         \<and> snd (classify_st tok self email_text (fst (classify_st tok self email_text w)))
             = snd (classify_st tok self email_text w)"
proof -
  from classify_st_unchanged [OF assms, of email_text]
  have "fst (classify_st tok self email_text w) = w"
    by (simp add: leaves_unchanged_def)
  then show ?thesis by simp
qed

theorem classify_twice_same_result_witness:
  "assets_unchanged toy_word_tokenize_st toy_classifier_st
   \<and> classify_st toy_word_tokenize_st toy_classifier_st (PyStr ''send the dos'') 7 =
       (7, Inr \<lparr>primary_classification = ''No-Spam'',
                detailed_labels = [''Reminders'', ''Finance & Bills'']\<rparr>)
   \<and> snd (classify_st toy_word_tokenize_st toy_classifier_st (PyStr ''send the dos'')
           (fst (classify_st toy_word_tokenize_st toy_classifier_st (PyStr ''send the dos'') 7)))
       = Inr \<lparr>primary_classification = ''No-Spam'',
              detailed_labels = [''Reminders'', ''Finance & Bills'']\<rparr>"
  using classify_twice_same_result [OF toy_assets_unchanged, of "PyStr ''send the dos''" 7]
    toy_assets_unchanged
  by (simp add: toy_classify_st)

section \<open>The threshold\<close>

text \<open>
  Claim C2. The comparison with the threshold is inclusive: in a matrix of probabilities
  with ten columns, a category of row 0 whose probability is exactly 0.30 gets the
  decision 1, and its name is among the labels that the thresholding step returns.
\<close>

theorem threshold_is_inclusive:
  assumes "m \<noteq> []" and "\<forall>row\<in>set m. length row = 10"
    and "c < 10" and "m ! 0 ! c = 0.30"
  shows "\<exists>y labels. y_pred_bin_thresh m = Inr y \<and> predicted_labels y = Inr labels
           \<and> y ! 0 ! c = 1 \<and> MULTILABEL_CLASSES ! c \<in> set labels"
proof -
  from labelling_total [OF assms(1,2)] obtain y labels
    where y: "y_pred_bin_thresh m = Inr y" and l: "predicted_labels y = Inr labels" .
  have r: "0 < length m" and c: "c < length (m ! 0)" using assms(1,2,3) by auto
  have one: "y ! 0 ! c = 1"
    using assms(4) by (simp add: y_pred_bin_thresh_nth [OF y r c] THRESHOLD_def)
  have "c \<in> set [j \<leftarrow> [0..<length (y ! 0)]. y ! 0 ! j = 1]"
    using one c by (simp add: y_pred_bin_thresh_row_length [OF y r])
  then have "MULTILABEL_CLASSES ! c \<in> set labels"
    using l by (simp add: predicted_labels_Inr_iff del: set_filter)
  with y l one show ?thesis by blast
qed

theorem threshold_is_inclusive_witness:
  "[[0.05, 0.30, 0.10, 0.70, 0.29, 0.05, 0.05, 0.05, 0.05, 0.05 :: real]] ! 0 ! 1 = 0.30
   \<and> (\<exists>y labels.
        y_pred_bin_thresh [[0.05, 0.30, 0.10, 0.70, 0.29, 0.05, 0.05, 0.05, 0.05, 0.05]] = Inr y
        \<and> predicted_labels y = Inr labels \<and> y ! 0 ! 1 = 1 \<and> ''Reminders'' \<in> set labels)"
  using threshold_is_inclusive
    [of "[[0.05, 0.30, 0.10, 0.70, 0.29, 0.05, 0.05, 0.05, 0.05, 0.05]]" 1]
  by (simp add: MULTILABEL_CLASSES_def)

section \<open>The fallback\<close>

text \<open>
  Claim C3. When every probability of row 0 is below 0.30, the labels are the single
  name of the category with the greatest probability, and among several categories with
  that probability the one with the least index in \<open>MULTILABEL_CLASSES\<close>.
\<close>

theorem fallback_first_maximum:
  assumes "m \<noteq> []" and "\<forall>row\<in>set m. length row = 10"
    and "\<forall>p\<in>set (m ! 0). p < 0.30"
    and "i < 10" and "\<forall>j<10. m ! 0 ! j \<le> m ! 0 ! i" and "\<forall>j<i. m ! 0 ! j < m ! 0 ! i"
  shows "\<exists>y. y_pred_bin_thresh m = Inr y
           \<and> predicted_labels y = Inr [MULTILABEL_CLASSES ! i]"
proof -
  from labelling_total [OF assms(1,2)] obtain y labels
    where y: "y_pred_bin_thresh m = Inr y" and l: "predicted_labels y = Inr labels" .
  have r: "0 < length m" and len: "length (m ! 0) = 10" using assms(1,2) by auto
  have below: "\<forall>p\<in>set (m ! 0). p < THRESHOLD" using assms(3) by (simp add: THRESHOLD_def)
  have am: "argmax (m ! 0) = Inr i"
    using assms(4,5,6) by (intro argmax_unique) (simp_all add: len)
  have ylen: "length (y ! 0) = 10" using y_pred_bin_thresh_row_length [OF y r] len by simp
  have "\<forall>j<10. (y ! 0 ! j = 1) \<longleftrightarrow> j = i"
  proof (intro allI impI)
    fix j :: nat assume j: "j < 10"
    then have jl: "j < length (m ! 0)" by (simp add: len)
    then have "m ! 0 ! j < THRESHOLD" using below by simp
    then show "(y ! 0 ! j = 1) \<longleftrightarrow> j = i"
      using below am by (auto simp: y_pred_bin_thresh_nth [OF y r jl])
  qed
  with assms(4) have "[j \<leftarrow> [0..<10]. y ! 0 ! j = 1] = [i]" by (rule filter_upt_single)
  with l have "labels = [MULTILABEL_CLASSES ! i]"
    by (simp add: predicted_labels_Inr_iff ylen)
  with y l show ?thesis by blast
qed

theorem fallback_first_maximum_witness:
  "[0.10, 0.25, 0.05, 0.25, 0.10, 0.05, 0.05, 0.05, 0.05, 0.05 :: real] ! 1 = 0.25
   \<and> [0.10, 0.25, 0.05, 0.25, 0.10, 0.05, 0.05, 0.05, 0.05, 0.05 :: real] ! 3 = 0.25
   \<and> (\<exists>y. y_pred_bin_thresh [[0.10, 0.25, 0.05, 0.25, 0.10, 0.05, 0.05, 0.05, 0.05, 0.05]]
              = Inr y
            \<and> predicted_labels y = Inr [''Reminders''])"
proof -
  let ?row = "[0.10, 0.25, 0.05, 0.25, 0.10, 0.05, 0.05, 0.05, 0.05, 0.05 :: real]"
  have h1: "[?row] \<noteq> []" and h2: "\<forall>row\<in>set [?row]. length row = 10"
    and h3: "\<forall>p\<in>set ([?row] ! 0). p < 0.30" and h4: "(1::nat) < 10"
    by simp_all
  have all_le: "\<forall>p\<in>set ?row. p \<le> ?row ! 1" by simp
  have h5: "\<forall>j<10. [?row] ! 0 ! j \<le> [?row] ! 0 ! 1"
  proof (intro allI impI)
    fix j :: nat assume "j < 10"
    then have "j < length ?row" by simp
    then have "?row ! j \<in> set ?row" by (rule nth_mem)
    with all_le have "?row ! j \<le> ?row ! 1" by (rule bspec)
    then show "[?row] ! 0 ! j \<le> [?row] ! 0 ! 1" by (simp only: nth_Cons_0)
  qed
  have h6: "\<forall>j<1. [?row] ! 0 ! j < [?row] ! 0 ! 1" by simp
  from fallback_first_maximum [OF h1 h2 h3 h4 h5 h6] show ?thesis
    by (simp add: MULTILABEL_CLASSES_def)
qed

section \<open>The tokens that preprocessing returns\<close>




section \<open>The outcome of loading\<close>

text \<open>
  Claim C6, as the code has it. Loading returns the classifier with all four assets set
  exactly when all four files are there and unpickle. Otherwise it raises, and the
  exception is that of the first file that does not load, in the order spam vectorizer,
  spam model, topic vectorizer, topic model: the \<^verbatim>\<open>FileNotFoundError\<close> whose message
  names the path when that file is missing, the \<^verbatim>\<open>PermissionError\<close> that carries the
  path when the file may not be read, and the error of \<^verbatim>\<open>pickle.load\<close>, which names
  no file, when the file is not a pickle.
\<close>

theorem load_pipeline_assets_outcome:
  "load_pipeline_assets fs self =
     (case find (\<lambda>p. \<not> is_Pickled (fs p)) (asset_paths (model_dir self)) of
        None \<Rightarrow>
          Inr (self\<lparr>spam_vec := Some (the_object (fs (asset_paths (model_dir self) ! 0))),
                    spam_clf := Some (the_object (fs (asset_paths (model_dir self) ! 1))),
                    ml_vec := Some (the_object (fs (asset_paths (model_dir self) ! 2))),
                    ml_clf := Some (the_object (fs (asset_paths (model_dir self) ! 3)))\<rparr>)
      | Some p \<Rightarrow>
          Inl (case fs p of
                 Missing \<Rightarrow>
                   Exn FileNotFoundError None
                     (''Required model asset not found: '' @ p @ ''. ''
                      @ ''Ensure your model_assets directory exists and contains all four .pkl files.'')
               | Denied \<Rightarrow>
                   Exn PermissionError (Some p)
                     (''[Errno 13] Permission denied: '' @ [CHR 0x27] @ p @ [CHR 0x27])
               | _ \<Rightarrow> Exn UnpicklingError None ''invalid load key''))"
  by (rule load_pipeline_assets_find)

theorem load_pipeline_assets_outcome_witness:
  "find (\<lambda>p. \<not> is_Pickled (toy_fs_missing p)) (asset_paths (model_dir toy_unloaded)) =
     Some ''model_assets/multilabel_model.pkl''
   \<and> toy_fs_missing ''model_assets/multilabel_model.pkl'' = Missing
   \<and> load_pipeline_assets toy_fs_missing toy_unloaded =
     Inl (Exn FileNotFoundError None
       (''Required model asset not found: model_assets/multilabel_model.pkl. ''
        @ ''Ensure your model_assets directory exists and contains all four .pkl files.''))"
  using load_pipeline_assets_outcome [of toy_fs_missing toy_unloaded]
  by (simp add: asset_paths_def os_path_join_def toy_fs_missing_def toy_fs_def toy_unloaded_def)

text \<open>
  The claim as stated fails: the spam model is missing from the directory below, but the
  spam vectorizer is opened first and is not a pickle, so the exception that loading
  raises is not a \<^verbatim>\<open>FileNotFoundError\<close> and names neither file.
\<close>

theorem load_error_names_nothing_counterexample:
  "toy_fs_garbled ''model_assets/spam_vectorizer.pkl'' = NotAPickle
   \<and> toy_fs_garbled ''model_assets/spam_model.pkl'' = Missing
   \<and> load_pipeline_assets toy_fs_garbled toy_unloaded =
       Inl (Exn UnpicklingError None ''invalid load key'')"
  by (simp add: loading_defs toy_fs_garbled_def toy_fs_def toy_unloaded_def)

section \<open>Requests after a failed start\<close>

text \<open>
  Claim C8, as the code has it. When the first asset that does not load is missing, the
  import of the module succeeds with \<^verbatim>\<open>classifier = None\<close>, and every request to the
  route is answered by the handler in one and the same way, whatever the text and the
  language resources: the answer is never a classification result, so the classification
  is not run. The status and the body with which the answer reaches the client are not
  part of this statement.
\<close>

theorem missing_asset_requests_refused:
  assumes "stopwords_words_english nl = Inr ws"
    and "find (\<lambda>p. \<not> is_Pickled (fs p)) (asset_paths ''model_assets'') = Some p"
    and "fs p = Missing"
  shows "\<exists>resp. \<not> is_Result resp
           \<and> (\<forall>nl' email_text.
                 post_classify (import_interface nl fs) nl' email_text = Some resp)"
proof -
  have "\<exists>msg. init nl fs ''model_assets'' = Inl (Exn FileNotFoundError None msg)"
    using assms
    by (simp add: init_def bind_exn_def load_pipeline_assets_find)
  then have "import_interface nl fs = Imported None"
    by (auto simp: import_interface_def)
  then have "\<forall>nl' email_text. post_classify (import_interface nl fs) nl' email_text =
      Some (ErrorObjectWithStatus
              ''Server failed to load machine learning assets on startup.'' 500)"
    by (simp add: post_classify_def classify_email_def)
  moreover have "\<not> is_Result (ErrorObjectWithStatus
              ''Server failed to load machine learning assets on startup.'' 500)"
    by simp
  ultimately show ?thesis by blast
qed

theorem missing_asset_requests_refused_witness:
  "stopwords_words_english toy_nltk = Inr [''the'', ''and'', ''do'']
   \<and> find (\<lambda>p. \<not> is_Pickled (toy_fs_missing p)) (asset_paths ''model_assets'') =
       Some ''model_assets/multilabel_model.pkl''
   \<and> toy_fs_missing ''model_assets/multilabel_model.pkl'' = Missing
   \<and> (\<exists>resp. \<not> is_Result resp
         \<and> post_classify (import_interface toy_nltk toy_fs_missing) toy_nltk ''send the dos''
             = Some resp)"
proof -
  have h: "stopwords_words_english toy_nltk = Inr [''the'', ''and'', ''do'']"
    "find (\<lambda>p. \<not> is_Pickled (toy_fs_missing p)) (asset_paths ''model_assets'') =
       Some ''model_assets/multilabel_model.pkl''"
    "toy_fs_missing ''model_assets/multilabel_model.pkl'' = Missing"
    by (simp_all add: toy_nltk_def asset_paths_def os_path_join_def toy_fs_missing_def toy_fs_def)
  from missing_asset_requests_refused [OF h] h show ?thesis by blast
qed

text \<open>
  The claim as stated, for every failure of the loading, fails: only
  \<^verbatim>\<open>FileNotFoundError\<close> is caught. With a spam model that may not be read, the
  \<^verbatim>\<open>PermissionError\<close> leaves the constructor and the import of the module, and no
  handler answers a request.
\<close>

theorem unreadable_asset_import_fails_counterexample:
  "toy_fs_denied ''model_assets/spam_model.pkl'' = Denied
   \<and> import_interface toy_nltk toy_fs_denied =
       ImportFailed (Exn PermissionError (Some ''model_assets/spam_model.pkl'')
              (''[Errno 13] Permission denied: '' @ [CHR 0x27] @ ''model_assets/spam_model.pkl''
               @ [CHR 0x27]))
   \<and> post_classify (import_interface toy_nltk toy_fs_denied) toy_nltk ''send the dos'' = None"
  by (simp add: post_classify_def import_interface_def init_def toy_nltk_def loading_defs
      toy_fs_denied_def toy_fs_def)

end
